theory Spec2Isabelle
  imports Main "HOL-Library.Sublist"
begin

section \<open>The quote store of \<^verbatim>\<open>qualifier.py\<close>\<close>

subsection \<open>Python strings\<close>

text \<open>
  A Python \<^verbatim>\<open>str\<close> is a sequence of Unicode code points: \<^verbatim>\<open>len\<close> counts code
  points and slicing cuts between them. The command language uses the curly quotation
  marks U+201C and U+201D, which do not fit the 8-bit \<^typ>\<open>char\<close>, so a Python string
  is modelled as the list of its code points. \<open>lit\<close> embeds an ASCII literal.
\<close>

type_synonym pystr = "nat list"

definition lit :: "string \<Rightarrow> pystr" where
  "lit s = map of_char s"

text \<open>The straight quotation mark U+0022 and the curly ones U+201C, U+201D.\<close>

definition dquote :: nat where
  "dquote = 34"

definition ldquo :: nat where
  "ldquo = 8220"

definition rdquo :: nat where
  "rdquo = 8221"

text \<open>\<^verbatim>\<open>s.startswith(p)\<close> and \<^verbatim>\<open>s.endswith(p)\<close>.\<close>

definition startswith :: "pystr \<Rightarrow> pystr \<Rightarrow> bool" where
  "startswith s p = prefix p s"

definition endswith :: "pystr \<Rightarrow> pystr \<Rightarrow> bool" where
  "endswith s p = suffix p s"

text \<open>
  \<^verbatim>\<open>s[start:stop]\<close>: a negative index counts from the end, and both indices are
  clipped to the range of the string; when the clipped start is not before the clipped
  stop the slice is empty.
\<close>

definition slice :: "pystr \<Rightarrow> int \<Rightarrow> int \<Rightarrow> pystr" where
  "slice s start stop =
     (let n = int (length s);
          lo = (if start < 0 then max (start + n) 0 else min start n);
          hi = (if stop < 0 then max (stop + n) 0 else min stop n)
      in drop (nat lo) (take (nat hi) s))"

text \<open>
  \<^verbatim>\<open>s.replace(old, new)\<close> where \<^verbatim>\<open>old\<close> and \<^verbatim>\<open>new\<close> are single characters, the
  only way the program calls it: every occurrence is replaced.
\<close>

definition replace :: "pystr \<Rightarrow> nat \<Rightarrow> nat \<Rightarrow> pystr" where
  "replace s old new = map (\<lambda>c. if c = old then new else c) s"

text \<open>
  \<^verbatim>\<open>s.split(sep)\<close> with a one-character separator: the string is cut at every
  occurrence of the separator, empty pieces are kept, and the empty string gives one
  empty piece.
\<close>

fun split :: "pystr \<Rightarrow> nat \<Rightarrow> pystr list" where
  "split [] sep = [[]]"
| "split (c # cs) sep =
     (if c = sep then [] # split cs sep
      else (case split cs sep of
              [] \<Rightarrow> [[c]]
            | w # ws \<Rightarrow> (c # w) # ws))"

text \<open>\<^verbatim>\<open>sep.join(ws)\<close>.\<close>

fun join :: "pystr \<Rightarrow> pystr list \<Rightarrow> pystr" where
  "join sep [] = []"
| "join sep [w] = w"
| "join sep (w # v # ws) = w @ sep @ join sep (v # ws)"

subsection \<open>Data model\<close>

definition MAX_QUOTE_LENGTH :: nat where
  "MAX_QUOTE_LENGTH = 50"

datatype VariantMode = NORMAL | UWU | PIGLATIN

text \<open>The exceptions the program raises, with their messages.\<close>

datatype error =
    ValueError string
  | NotImplementedError string
  | DuplicateError

record Quote =
  quote :: pystr
  mode :: VariantMode

text \<open>\<^verbatim>\<open>Quote.__str__\<close>\<close>

definition str :: "Quote \<Rightarrow> pystr" where
  "str q = quote q"

text \<open>
  The mutable state the program acts on: the class attribute \<^verbatim>\<open>Database.quotes\<close>,
  the texts given to \<^verbatim>\<open>print\<close> and the messages given to \<^verbatim>\<open>warnings.warn\<close>, each
  in the order of the calls.
\<close>

record state =
  quotes :: "Quote list"
  stdout :: "pystr list"
  warnings :: "string list"

definition print :: "pystr \<Rightarrow> state \<Rightarrow> state" where
  "print text s = s\<lparr>stdout := stdout s @ [text]\<rparr>"

definition warn :: "string \<Rightarrow> state \<Rightarrow> state" where
  "warn msg s = s\<lparr>warnings := warnings s @ [msg]\<rparr>"

subsection \<open>The database\<close>

text \<open>\<^verbatim>\<open>Database.get_quotes\<close>\<close>

definition get_quotes :: "state \<Rightarrow> pystr list" where
  "get_quotes s = map str (quotes s)"

text \<open>\<^verbatim>\<open>Database.add_quote\<close>\<close>

definition Database_add_quote :: "Quote \<Rightarrow> state \<Rightarrow> (error + unit) \<times> state" where
  "Database_add_quote q s =
     (if str q \<in> set (get_quotes s) then (Inl DuplicateError, s)
      else (Inr (), s\<lparr>quotes := quotes s @ [q]\<rparr>))"

subsection \<open>The transformation\<close>

text \<open>
  The two stages of \<^verbatim>\<open>uwuify\<close>: the four replacements, and the stutter put before
  every piece between single spaces that starts with \<^verbatim>\<open>U\<close> or \<^verbatim>\<open>u\<close>.
\<close>

definition partially_transformed :: "pystr \<Rightarrow> pystr" where
  "partially_transformed q =
     replace (replace (replace (replace q (of_char CHR ''L'') (of_char CHR ''W''))
                                 (of_char CHR ''l'') (of_char CHR ''w''))
                        (of_char CHR ''R'') (of_char CHR ''W''))
             (of_char CHR ''r'') (of_char CHR ''w'')"

definition stutter :: "pystr \<Rightarrow> pystr" where
  "stutter word =
     (if startswith word (lit ''U'') then lit ''U-'' @ word
      else if startswith word (lit ''u'') then lit ''u-'' @ word
      else word)"

definition fully_transformed :: "pystr \<Rightarrow> pystr" where
  "fully_transformed p = join (lit '' '') (map stutter (split p (of_char CHR '' '')))"

definition uwuify :: "pystr \<Rightarrow> state \<Rightarrow> (error + pystr) \<times> state" where
  "uwuify q s =
     (let p = partially_transformed q;
          f = fully_transformed p;
          (t, s') = (if length f > MAX_QUOTE_LENGTH
                     then (p, warn ''Quote too long, only partially transformed'' s)
                     else (f, s))
      in if t = q then (Inl (ValueError ''Quote was not modified''), s')
         else (Inr t, s'))"

text \<open>
  Step (a) as the specification words it, for comparison with the four successive
  replacements of the source: one pass over the text that turns \<^verbatim>\<open>L\<close> and \<^verbatim>\<open>R\<close>
  into \<^verbatim>\<open>W\<close>, \<^verbatim>\<open>l\<close> and \<^verbatim>\<open>r\<close> into \<^verbatim>\<open>w\<close>, and keeps every other character.
\<close>

definition spec_replace_letter :: "nat \<Rightarrow> nat" where
  "spec_replace_letter c =
     (if c = of_char CHR ''L'' \<or> c = of_char CHR ''R'' then of_char CHR ''W''
      else if c = of_char CHR ''l'' \<or> c = of_char CHR ''r'' then of_char CHR ''w''
      else c)"

subsection \<open>Adding and listing\<close>

definition add_quote :: "pystr \<Rightarrow> VariantMode \<Rightarrow> state \<Rightarrow> (error + unit) \<times> state" where
  "add_quote q m s =
     (if length q > MAX_QUOTE_LENGTH then (Inl (ValueError ''Quote is too long''), s)
      else (case Database_add_quote \<lparr>quote = q, mode = m\<rparr> s of
              (Inl e, s') \<Rightarrow>
                (if e = DuplicateError
                 then (Inr (), print (lit ''Quote has already been added previously'') s')
                 else (Inl e, s'))
            | (Inr u, s') \<Rightarrow> (Inr u, s')))"

definition list_formatted_quotes :: "state \<Rightarrow> pystr" where
  "list_formatted_quotes s =
     join (lit [CHR 0x0A]) (map (\<lambda>q. lit ''- '' @ q) (get_quotes s))"

subsection \<open>The dispatcher\<close>

definition run_command :: "pystr \<Rightarrow> state \<Rightarrow> (error + unit) \<times> state" where
  "run_command command s =
     (if startswith command (lit ''quote uwu'') then
        (let raw_quote = slice command 11 (- 1) in
         case uwuify raw_quote s of
           (Inl e, s') \<Rightarrow> (Inl e, s')
         | (Inr uwuified_quote, s') \<Rightarrow> add_quote uwuified_quote UWU s')
      else if startswith command (lit ''quote piglatin'') then
        (Inl (NotImplementedError ''Command not implemented''), s)
      else if startswith command (lit ''quote list'') then
        (Inr (), print (list_formatted_quotes s) s)
      else if (startswith command (lit ''quote '' @ [dquote]) \<and> endswith command [dquote])
            \<or> (startswith command (lit ''quote '' @ [ldquo]) \<and> endswith command [rdquo]) then
        (let raw_quote = slice command 7 (- 1) in
         add_quote raw_quote NORMAL s)
      else (Inl (ValueError ''Invalid command''), s))"

text \<open>The store with no quotes, as the program starts.\<close>

definition initial :: state where
  "initial = \<lparr>quotes = [], stdout = [], warnings = []\<rparr>"

text \<open>The errors a command can raise to its caller.\<close>

definition command_errors :: "error set" where
  "command_errors =
     {ValueError ''Invalid command'', ValueError ''Quote is too long'',
      ValueError ''Quote was not modified'', NotImplementedError ''Command not implemented''}"

section \<open>Properties\<close>

subsection \<open>Frame and evaluation lemmas\<close>

lemma quotes_print [simp]: "quotes (print t s) = quotes s"
  by (simp add: print_def)

lemma quotes_warn [simp]: "quotes (warn m s) = quotes s"
  by (simp add: warn_def)

lemma get_quotes_print [simp]: "get_quotes (print t s) = get_quotes s"
  by (simp add: get_quotes_def)

lemma get_quotes_warn [simp]: "get_quotes (warn m s) = get_quotes s"
  by (simp add: get_quotes_def)

lemma add_quote_eq:
  "add_quote q m s =
     (if length q > 50 then (Inl (ValueError ''Quote is too long''), s)
      else if q \<in> set (get_quotes s)
      then (Inr (), print (lit ''Quote has already been added previously'') s)
      else (Inr (), s\<lparr>quotes := quotes s @ [\<lparr>quote = q, mode = m\<rparr>]\<rparr>))"
  by (simp add: add_quote_def Database_add_quote_def MAX_QUOTE_LENGTH_def str_def)

lemma uwuify_cases:
  "uwuify q s = (Inl (ValueError ''Quote was not modified''), s) \<or>
   uwuify q s = (Inl (ValueError ''Quote was not modified''),
                 warn ''Quote too long, only partially transformed'' s) \<or>
   (\<exists>t. uwuify q s = (Inr t, s)) \<or>
   (\<exists>t. uwuify q s = (Inr t, warn ''Quote too long, only partially transformed'' s))"
  by (simp add: uwuify_def Let_def)

lemma slice_to_last: "slice c (int k) (- 1) = drop k (butlast c)"
  by (cases "c = []")
     (auto simp: slice_def Let_def butlast_conv_take min_def max_def nat_diff_distrib')

lemma slice_11: "slice c 11 (- 1) = drop 11 (butlast c)"
  using slice_to_last [of c 11] by simp

lemma slice_7: "slice c 7 (- 1) = drop 7 (butlast c)"
  using slice_to_last [of c 7] by simp


lemma list_not_uwu: "startswith c (lit ''quote list'') \<Longrightarrow> \<not> startswith c (lit ''quote uwu'')"
  by (auto simp: startswith_def lit_def prefix_def)

lemma list_not_piglatin: "startswith c (lit ''quote list'') \<Longrightarrow> \<not> startswith c (lit ''quote piglatin'')"
  by (auto simp: startswith_def lit_def prefix_def)

lemma run_command_uwu:
  "startswith c (lit ''quote uwu'') \<Longrightarrow>
   run_command c s = (case uwuify (drop 11 (butlast c)) s of
                        (Inl e, s') \<Rightarrow> (Inl e, s')
                      | (Inr t, s') \<Rightarrow> add_quote t UWU s')"
  by (simp add: run_command_def slice_11)

lemma uwuify_empty: "uwuify [] s = (Inl (ValueError ''Quote was not modified''), s)"
  by (simp add: uwuify_def partially_transformed_def replace_def fully_transformed_def
      stutter_def startswith_def lit_def MAX_QUOTE_LENGTH_def)

lemma run_command_list:
  "startswith c (lit ''quote list'') \<Longrightarrow>
   run_command c s = (Inr (), print (list_formatted_quotes s) s)"
  by (simp add: run_command_def list_not_uwu list_not_piglatin)

lemma add_quote_outcome:
  assumes "quotes s' = quotes s"
  shows "(fst (add_quote q m s') = Inl (ValueError ''Quote is too long'')
          \<and> quotes (snd (add_quote q m s')) = quotes s)
       \<or> (fst (add_quote q m s') = Inr () \<and> quotes (snd (add_quote q m s')) = quotes s)
       \<or> (fst (add_quote q m s') = Inr () \<and> q \<notin> set (get_quotes s) \<and> length q \<le> 50
          \<and> quotes (snd (add_quote q m s')) = quotes s @ [\<lparr>quote = q, mode = m\<rparr>])"
  using assms by (simp add: add_quote_eq get_quotes_def)

lemma run_command_outcome:
  "(fst (run_command c s) \<in> Inl ` command_errors \<and> quotes (snd (run_command c s)) = quotes s)
 \<or> (fst (run_command c s) = Inr () \<and> quotes (snd (run_command c s)) = quotes s)
 \<or> (fst (run_command c s) = Inr () \<and>
      (\<exists>q. str q \<notin> set (get_quotes s) \<and> length (str q) \<le> 50
          \<and> quotes (snd (run_command c s)) = quotes s @ [q]))"
proof (cases "startswith c (lit ''quote uwu'')")
  case True
  note rc = run_command_uwu [OF True, of s]
  from uwuify_cases [of "drop 11 (butlast c)" s] show ?thesis
  proof (elim disjE exE)
    fix t assume u: "uwuify (drop 11 (butlast c)) s = (Inr t, s)"
    from add_quote_outcome [of s s t UWU] show ?thesis
      by (auto simp: rc u command_errors_def str_def)
  next
    fix t assume u: "uwuify (drop 11 (butlast c)) s
        = (Inr t, warn ''Quote too long, only partially transformed'' s)"
    from add_quote_outcome [of "warn ''Quote too long, only partially transformed'' s" s t UWU]
    show ?thesis
      by (auto simp: rc u command_errors_def str_def)
  qed (simp_all add: rc command_errors_def)
next
  case False
  from add_quote_outcome [of s s "slice c 7 (- 1)" NORMAL] False show ?thesis
    by (auto simp: run_command_def command_errors_def str_def Let_def)
qed

lemma endswith_char: "endswith c [x] = (c \<noteq> [] \<and> last c = x)"
  by (cases c rule: rev_cases) (auto simp: endswith_def)

subsection \<open>The uwu path of the dispatcher\<close>

text \<open>
  Claim C9. The dispatcher validates no closing delimiter on the uwu path: every command
  that starts with \<^verbatim>\<open>quote uwu\<close> is run as an uwu add whose raw quote is the
  substring from index 11 up to, and excluding, the last character, whether or not any
  quotation mark is present. The bare command \<^verbatim>\<open>quote uwu\<close> transforms the empty
  string, and that raises \<^verbatim>\<open>ValueError("Quote was not modified")\<close>.
\<close>

theorem uwu_path_unvalidated:
  "(startswith c (lit ''quote uwu'') \<longrightarrow>
      run_command c s = (case uwuify (drop 11 (butlast c)) s of
                           (Inl e, s') \<Rightarrow> (Inl e, s')
                         | (Inr t, s') \<Rightarrow> add_quote t UWU s'))
   \<and> run_command (lit ''quote uwu'') s = (Inl (ValueError ''Quote was not modified''), s)"
proof -
  have b: "startswith (lit ''quote uwu'') (lit ''quote uwu'')"
    by (simp add: startswith_def)
  have "drop 11 (butlast (lit ''quote uwu'')) = []"
    by (simp add: lit_def)
  with run_command_uwu [OF b, of s] show ?thesis
    by (simp add: run_command_uwu uwuify_empty)
qed

text \<open>
  The command \<^verbatim>\<open>quote uwu-really\<close> has no quotation mark at all; its characters
  11 to 14 are \<^verbatim>\<open>eall\<close>, stored as \<^verbatim>\<open>eaww\<close>.
\<close>

theorem uwu_path_unvalidated_witness:
  "startswith (lit ''quote uwu-really'') (lit ''quote uwu'')
   \<and> run_command (lit ''quote uwu-really'') initial
       = (Inr (), initial\<lparr>quotes := [\<lparr>quote = lit ''eaww'', mode = UWU\<rparr>]\<rparr>)"
  using uwu_path_unvalidated [of "lit ''quote uwu-really''" initial]
  by (simp add: startswith_def lit_def uwuify_def partially_transformed_def replace_def
      fully_transformed_def stutter_def MAX_QUOTE_LENGTH_def add_quote_eq get_quotes_def
      initial_def)

subsection \<open>Listing leaves the store alone\<close>

text \<open>
  Claim C8. A command that starts with \<^verbatim>\<open>quote list\<close> only prints: it returns
  normally, the formatted listing is given to \<^verbatim>\<open>print\<close>, and the stored quotes are
  the same before and after. The store changes only when a command returns normally,
  and then by one quote added at the end.
\<close>

theorem quote_list_frame:
  "(startswith c (lit ''quote list'') \<longrightarrow>
      run_command c s = (Inr (), s\<lparr>stdout := stdout s @ [list_formatted_quotes s]\<rparr>)
      \<and> quotes (snd (run_command c s)) = quotes s)
   \<and> (quotes (snd (run_command c' s)) \<noteq> quotes s \<longrightarrow>
        fst (run_command c' s) = Inr ()
        \<and> (\<exists>q. quotes (snd (run_command c' s)) = quotes s @ [q]))"
  using run_command_outcome [of c' s]
  by (auto simp: run_command_list print_def)

theorem quote_list_frame_witness:
  "startswith (lit ''quote list'') (lit ''quote list'')
   \<and> run_command (lit ''quote list'')
         (initial\<lparr>quotes := [\<lparr>quote = lit ''A'', mode = NORMAL\<rparr>]\<rparr>)
       = (Inr (), \<lparr>quotes = [\<lparr>quote = lit ''A'', mode = NORMAL\<rparr>],
                   stdout = [lit ''- A''], warnings = []\<rparr>)
   \<and> quotes (snd (run_command (lit ''quote '' @ [dquote] @ lit ''B'' @ [dquote]) initial))
       \<noteq> quotes initial
   \<and> fst (run_command (lit ''quote '' @ [dquote] @ lit ''B'' @ [dquote]) initial) = Inr ()"
proof -
  have m: "quotes (snd (run_command (lit ''quote '' @ [dquote] @ lit ''B'' @ [dquote]) initial))
       \<noteq> quotes initial"
    by (simp add: run_command_def startswith_def endswith_char lit_def dquote_def slice_7
        add_quote_eq get_quotes_def initial_def)
  show ?thesis
    using m quote_list_frame [of "lit ''quote list''"
        "initial\<lparr>quotes := [\<lparr>quote = lit ''A'', mode = NORMAL\<rparr>]\<rparr>"
        "lit ''quote '' @ [dquote] @ lit ''B'' @ [dquote]"]
      quote_list_frame [of "lit ''quote list''" initial
        "lit ''quote '' @ [dquote] @ lit ''B'' @ [dquote]"]
    by (simp add: startswith_def initial_def list_formatted_quotes_def get_quotes_def str_def
        lit_def)
qed

subsection \<open>The store invariant\<close>

lemma Database_add_quote_distinct:
  "distinct (get_quotes s) \<Longrightarrow> distinct (get_quotes (snd (Database_add_quote q s)))"
  by (simp add: Database_add_quote_def get_quotes_def)

lemma add_quote_distinct:
  "distinct (get_quotes s) \<Longrightarrow> distinct (get_quotes (snd (add_quote t m s)))"
  by (simp add: add_quote_eq) (simp add: get_quotes_def str_def)

lemma uwuify_quotes: "quotes (snd (uwuify t s)) = quotes s"
  using uwuify_cases [of t s] by auto

lemma run_command_distinct:
  assumes "distinct (get_quotes s)"
  shows "distinct (get_quotes (snd (run_command c s)))"
  using run_command_outcome [of c s] assms
  by (auto simp: get_quotes_def)

text \<open>
  Claim C3. The store never holds two quotes with the same rendered text, and every
  operation keeps it so: \<^verbatim>\<open>Database.add_quote\<close>, \<^verbatim>\<open>add_quote\<close>, \<^verbatim>\<open>uwuify\<close> and
  \<^verbatim>\<open>run_command\<close> each take a store without duplicates to a store without
  duplicates. \<^verbatim>\<open>Database.add_quote\<close> raises \<^verbatim>\<open>DuplicateError\<close>, changing nothing,
  whenever the rendered text of the new quote is equal to the rendered text of a stored
  quote, and otherwise appends the quote at the end of the sequence.
\<close>

theorem store_has_no_duplicates:
  assumes "distinct (get_quotes s)"
  shows "distinct (get_quotes (snd (Database_add_quote q s)))
       \<and> distinct (get_quotes (snd (add_quote t m s)))
       \<and> distinct (get_quotes (snd (uwuify t s)))
       \<and> distinct (get_quotes (snd (run_command c s)))
       \<and> (str q \<in> set (get_quotes s) \<longrightarrow> Database_add_quote q s = (Inl DuplicateError, s))
       \<and> (str q \<notin> set (get_quotes s) \<longrightarrow>
            Database_add_quote q s = (Inr (), s\<lparr>quotes := quotes s @ [q]\<rparr>))"
  using assms
  by (simp add: Database_add_quote_distinct add_quote_distinct run_command_distinct
      uwuify_quotes get_quotes_def [of "snd (uwuify t s)"])
     (simp add: Database_add_quote_def get_quotes_def)

theorem store_has_no_duplicates_witness:
  "distinct (get_quotes (initial\<lparr>quotes := [\<lparr>quote = lit ''hi'', mode = NORMAL\<rparr>]\<rparr>))
   \<and> Database_add_quote \<lparr>quote = lit ''hi'', mode = UWU\<rparr>
        (initial\<lparr>quotes := [\<lparr>quote = lit ''hi'', mode = NORMAL\<rparr>]\<rparr>)
      = (Inl DuplicateError, initial\<lparr>quotes := [\<lparr>quote = lit ''hi'', mode = NORMAL\<rparr>]\<rparr>)
   \<and> Database_add_quote \<lparr>quote = lit ''ho'', mode = UWU\<rparr>
        (initial\<lparr>quotes := [\<lparr>quote = lit ''hi'', mode = NORMAL\<rparr>]\<rparr>)
      = (Inr (), initial\<lparr>quotes := [\<lparr>quote = lit ''hi'', mode = NORMAL\<rparr>,
                                       \<lparr>quote = lit ''ho'', mode = UWU\<rparr>]\<rparr>)
   \<and> distinct (get_quotes (snd (run_command (lit ''quote '' @ [dquote] @ lit ''hi'' @ [dquote])
        (initial\<lparr>quotes := [\<lparr>quote = lit ''hi'', mode = NORMAL\<rparr>]\<rparr>))))"
proof -
  have d: "distinct (get_quotes (initial\<lparr>quotes := [\<lparr>quote = lit ''hi'', mode = NORMAL\<rparr>]\<rparr>))"
    by (simp add: get_quotes_def)
  show ?thesis
    using d
      store_has_no_duplicates [OF d, of "\<lparr>quote = lit ''hi'', mode = UWU\<rparr>" "[]" NORMAL
        "lit ''quote '' @ [dquote] @ lit ''hi'' @ [dquote]"]
      store_has_no_duplicates [OF d, of "\<lparr>quote = lit ''ho'', mode = UWU\<rparr>" "[]" NORMAL
        "lit ''quote '' @ [dquote] @ lit ''hi'' @ [dquote]"]
    by (simp add: get_quotes_def str_def lit_def initial_def)
qed

subsection \<open>Failed commands\<close>

text \<open>
  Claim C4. For every command and every state, when \<^verbatim>\<open>run_command\<close> raises an
  error, the stored quotes are exactly those before the command, and the error is one
  of invalid command, too long, not modified and not implemented, never
  \<^verbatim>\<open>DuplicateError\<close>. The duplicate error is raised by \<^verbatim>\<open>Database.add_quote\<close> with
  the state unchanged and caught by \<^verbatim>\<open>add_quote\<close>, which returns normally with the
  store unchanged.
\<close>

theorem failed_command_keeps_store:
  "(fst (run_command c s) = Inl e \<longrightarrow>
      quotes (snd (run_command c s)) = quotes s \<and> e \<in> command_errors \<and> e \<noteq> DuplicateError)
   \<and> (str q \<in> set (get_quotes s) \<longrightarrow>
        Database_add_quote q s = (Inl DuplicateError, s)
        \<and> (length (str q) \<le> MAX_QUOTE_LENGTH \<longrightarrow>
             fst (add_quote (quote q) (mode q) s) = Inr ()
             \<and> quotes (snd (add_quote (quote q) (mode q) s)) = quotes s))"
proof -
  have "quotes (snd (run_command c s)) = quotes s \<and> e \<in> command_errors \<and> e \<noteq> DuplicateError"
    if "fst (run_command c s) = Inl e"
    using run_command_outcome [of c s] that by (auto simp: command_errors_def)
  then show ?thesis
    by (simp add: Database_add_quote_def add_quote_eq MAX_QUOTE_LENGTH_def str_def)
qed

theorem failed_command_keeps_store_witness:
  "fst (run_command (lit ''quote piglatin'') initial)
     = Inl (NotImplementedError ''Command not implemented'')
   \<and> quotes (snd (run_command (lit ''quote piglatin'') initial)) = quotes initial
   \<and> str \<lparr>quote = lit ''hi'', mode = NORMAL\<rparr>
       \<in> set (get_quotes (initial\<lparr>quotes := [\<lparr>quote = lit ''hi'', mode = UWU\<rparr>]\<rparr>))
   \<and> length (str \<lparr>quote = lit ''hi'', mode = NORMAL\<rparr>) \<le> MAX_QUOTE_LENGTH
   \<and> fst (add_quote (lit ''hi'') NORMAL (initial\<lparr>quotes := [\<lparr>quote = lit ''hi'', mode = UWU\<rparr>]\<rparr>))
       = Inr ()
   \<and> quotes (snd (add_quote (lit ''hi'') NORMAL
         (initial\<lparr>quotes := [\<lparr>quote = lit ''hi'', mode = UWU\<rparr>]\<rparr>)))
       = [\<lparr>quote = lit ''hi'', mode = UWU\<rparr>]"
proof -
  have r: "fst (run_command (lit ''quote piglatin'') initial)
     = Inl (NotImplementedError ''Command not implemented'')"
    by (simp add: run_command_def startswith_def lit_def)
  have m: "str \<lparr>quote = lit ''hi'', mode = NORMAL\<rparr>
       \<in> set (get_quotes (initial\<lparr>quotes := [\<lparr>quote = lit ''hi'', mode = UWU\<rparr>]\<rparr>))"
    by (simp add: get_quotes_def str_def)
  have l: "length (str \<lparr>quote = lit ''hi'', mode = NORMAL\<rparr>) \<le> MAX_QUOTE_LENGTH"
    by (simp add: str_def lit_def MAX_QUOTE_LENGTH_def)
  show ?thesis
    using r m l
      failed_command_keeps_store [of "lit ''quote piglatin''" initial
        "NotImplementedError ''Command not implemented''"
        "\<lparr>quote = lit ''hi'', mode = NORMAL\<rparr>"
        ]
      failed_command_keeps_store [of "lit ''quote piglatin''"
        "initial\<lparr>quotes := [\<lparr>quote = lit ''hi'', mode = UWU\<rparr>]\<rparr>"
        "NotImplementedError ''Command not implemented''"
        "\<lparr>quote = lit ''hi'', mode = NORMAL\<rparr>"]
    by simp
qed

subsection \<open>The length limit\<close>

text \<open>
  Claim C6. For a text of exactly 50 characters \<^verbatim>\<open>add_quote\<close> reaches the store and
  returns normally: its result is that of \<^verbatim>\<open>Database.add_quote\<close>, with the duplicate
  error turned into a printed notice, so a text not yet stored is appended. For a text
  of 51 characters or more it raises \<^verbatim>\<open>ValueError("Quote is too long")\<close> with the
  state untouched, before any insertion is tried.
\<close>

theorem add_quote_length_boundary:
  "(length q = 50 \<longrightarrow>
      fst (add_quote q m s) = Inr ()
      \<and> add_quote q m s =
          (case Database_add_quote \<lparr>quote = q, mode = m\<rparr> s of
             (Inl e, s') \<Rightarrow> (Inr (), print (lit ''Quote has already been added previously'') s')
           | (Inr u, s') \<Rightarrow> (Inr (), s'))
      \<and> (q \<notin> set (get_quotes s) \<longrightarrow>
           quotes (snd (add_quote q m s)) = quotes s @ [\<lparr>quote = q, mode = m\<rparr>]))
   \<and> (51 \<le> length q \<longrightarrow> add_quote q m s = (Inl (ValueError ''Quote is too long''), s))"
  by (simp add: add_quote_eq Database_add_quote_def str_def)

theorem add_quote_length_boundary_witness:
  "length (replicate 50 (97::nat)) = 50
   \<and> add_quote (replicate 50 97) NORMAL initial
       = (Inr (), initial\<lparr>quotes := [\<lparr>quote = replicate 50 97, mode = NORMAL\<rparr>]\<rparr>)
   \<and> 51 \<le> length (replicate 51 (97::nat))
   \<and> add_quote (replicate 51 97) NORMAL initial = (Inl (ValueError ''Quote is too long''), initial)"
  using add_quote_length_boundary [of "replicate 50 97" NORMAL initial]
    add_quote_length_boundary [of "replicate 51 97" NORMAL initial]
  by (simp add: Database_add_quote_def get_quotes_def str_def initial_def)

subsection \<open>Splitting and joining\<close>

lemma split_not_Nil [simp]: "split s sep \<noteq> []"
  by (induction s) (auto split: list.splits)

lemma split_no_sep: "sep \<notin> set w \<Longrightarrow> split w sep = [w]"
  by (induction w) auto

lemma split_append_sep: "sep \<notin> set w \<Longrightarrow> split (w @ sep # r) sep = w # split r sep"
  by (induction w) auto

lemma split_join:
  "ws \<noteq> [] \<Longrightarrow> (\<And>w. w \<in> set ws \<Longrightarrow> sep \<notin> set w) \<Longrightarrow> split (join [sep] ws) sep = ws"
proof (induction "[sep]" ws rule: join.induct)
  case 1
  then show ?case by simp
next
  case (2 w)
  then show ?case by (simp add: split_no_sep)
next
  case (3 w v ws)
  then show ?case by (simp add: split_append_sep)
qed

lemma join_split: "join [sep] (split s sep) = s"
proof (induction s)
  case Nil
  then show ?case by simp
next
  case (Cons c cs)
  show ?case
  proof (cases "c = sep")
    case True
    with Cons show ?thesis
      by (cases "split cs sep") auto
  next
    case False
    obtain w ws where sp: "split cs sep = w # ws"
      by (cases "split cs sep") auto
    with Cons False show ?thesis
      by (cases ws) auto
  qed
qed

lemma split_pieces: "w \<in> set (split s sep) \<Longrightarrow> sep \<notin> set w"
  by (induction s arbitrary: w) (auto split: if_splits list.splits)

lemma join_snoc:
  "ws \<noteq> [] \<Longrightarrow> join sep (ws @ [w]) = join sep ws @ sep @ w"
  by (induction sep ws rule: join.induct) auto

subsection \<open>The formatter\<close>

text \<open>
  Claim C7. For every state, \<^verbatim>\<open>list_formatted_quotes\<close> is the texts of the stored
  quotes, in the order of the store, each with \<^verbatim>\<open>- \<close> put before it, joined by the
  newline character (code point 10). The empty store gives the empty string, a store of
  one quote gives its line, and a quote added at the end of a store that is not empty
  adds a newline and its line at the end of the listing. When no stored text holds a
  newline, the lines of the listing are exactly the prefixed texts, one for each quote.
\<close>

theorem list_formatted_quotes_lines:
  "list_formatted_quotes s = join [10] (map (\<lambda>q. lit ''- '' @ str q) (quotes s))
   \<and> (quotes s = [] \<longrightarrow> list_formatted_quotes s = [])
   \<and> (quotes s = [] \<longrightarrow> list_formatted_quotes (s\<lparr>quotes := [q]\<rparr>) = lit ''- '' @ str q)
   \<and> (quotes s \<noteq> [] \<longrightarrow>
        list_formatted_quotes (s\<lparr>quotes := quotes s @ [q]\<rparr>)
          = list_formatted_quotes s @ [10] @ lit ''- '' @ str q)
   \<and> (quotes s \<noteq> [] \<and> (\<forall>x \<in> set (quotes s). 10 \<notin> set (str x)) \<longrightarrow>
        split (list_formatted_quotes s) 10 = map (\<lambda>q. lit ''- '' @ str q) (quotes s))"
proof -
  have e: "list_formatted_quotes s = join [10] (map (\<lambda>q. lit ''- '' @ str q) (quotes s))" for s
    by (simp add: list_formatted_quotes_def get_quotes_def lit_def comp_def)
  have sp: "split (list_formatted_quotes s) 10 = map (\<lambda>q. lit ''- '' @ str q) (quotes s)"
    if "quotes s \<noteq> []" "\<forall>x \<in> set (quotes s). 10 \<notin> set (str x)"
    unfolding e using that
    by (subst split_join) (auto simp: lit_def)
  show ?thesis
    using sp by (simp add: e join_snoc lit_def)
qed

theorem list_formatted_quotes_lines_witness:
  "list_formatted_quotes initial = []
   \<and> list_formatted_quotes
        (initial\<lparr>quotes := [\<lparr>quote = lit ''A'', mode = NORMAL\<rparr>,
                            \<lparr>quote = lit ''B'', mode = NORMAL\<rparr>,
                            \<lparr>quote = lit ''C'', mode = NORMAL\<rparr>]\<rparr>)
      = lit ''- A'' @ [10] @ lit ''- B'' @ [10] @ lit ''- C''
   \<and> split (list_formatted_quotes
        (initial\<lparr>quotes := [\<lparr>quote = lit ''A'', mode = NORMAL\<rparr>,
                            \<lparr>quote = lit ''B'', mode = NORMAL\<rparr>]\<rparr>)) 10
      = [lit ''- A'', lit ''- B'']"
  using list_formatted_quotes_lines [of initial "\<lparr>quote = lit ''A'', mode = NORMAL\<rparr>"]
    list_formatted_quotes_lines
      [of "initial\<lparr>quotes := [\<lparr>quote = lit ''A'', mode = NORMAL\<rparr>,
                                \<lparr>quote = lit ''B'', mode = NORMAL\<rparr>]\<rparr>"
          "\<lparr>quote = lit ''C'', mode = NORMAL\<rparr>"]
  by (simp add: initial_def str_def lit_def)

subsection \<open>The stages of the transformation\<close>

lemma partially_transformed_map: "partially_transformed q = map spec_replace_letter q"
  by (induction q) (auto simp: partially_transformed_def replace_def spec_replace_letter_def)

lemma length_partially_transformed [simp]: "length (partially_transformed q) = length q"
  by (simp add: partially_transformed_map)

lemma startswith_char: "startswith w [x] = (w \<noteq> [] \<and> hd w = x)"
  by (cases w) (auto simp: startswith_def)

lemma stutter_eq:
  "stutter w = (if w \<noteq> [] \<and> hd w = 85 then [85, 45] @ w
                else if w \<noteq> [] \<and> hd w = 117 then [117, 45] @ w
                else w)"
  by (simp add: stutter_def lit_def startswith_char)

lemma stutter_no_space: "32 \<notin> set w \<Longrightarrow> 32 \<notin> set (stutter w)"
  by (simp add: stutter_eq)

lemma fully_transformed_eq: "fully_transformed p = join [32] (map stutter (split p 32))"
  by (simp add: fully_transformed_def lit_def)

lemma split_fully_transformed: "split (fully_transformed p) 32 = map stutter (split p 32)"
  unfolding fully_transformed_eq
  by (rule split_join) (auto simp: stutter_no_space split_pieces)

lemma fully_transformed_id:
  assumes "\<And>w. w \<in> set (split p 32) \<Longrightarrow> stutter w = w"
  shows "fully_transformed p = p"
proof -
  have "map stutter (split p 32) = split p 32"
    using assms by (simp add: map_idI)
  then show ?thesis
    by (simp add: fully_transformed_eq join_split)
qed

lemma partially_transformed_id:
  assumes "\<And>x. x \<in> set q \<Longrightarrow> x \<notin> {76, 108, 82, 114}"
  shows "partially_transformed q = q"
  unfolding partially_transformed_map
  using assms by (intro map_idI) (auto simp: spec_replace_letter_def)

lemma uwuify_eq:
  "uwuify q s =
     (let p = map spec_replace_letter q;
          f = join [32] (map stutter (split p 32))
      in if length f \<le> 50
         then (if f = q then (Inl (ValueError ''Quote was not modified''), s) else (Inr f, s))
         else (if p = q
               then (Inl (ValueError ''Quote was not modified''),
                     warn ''Quote too long, only partially transformed'' s)
               else (Inr p, warn ''Quote too long, only partially transformed'' s)))"
  by (simp add: uwuify_def Let_def partially_transformed_map fully_transformed_eq
      MAX_QUOTE_LENGTH_def)

subsection \<open>What the transformation computes\<close>

text \<open>
  Claim C1, as amended. For every input text, \<^verbatim>\<open>uwuify\<close> first replaces every
  \<^verbatim>\<open>L\<close> and \<^verbatim>\<open>R\<close> by \<^verbatim>\<open>W\<close> and every \<^verbatim>\<open>l\<close> and \<^verbatim>\<open>r\<close> by \<^verbatim>\<open>w\<close>, which keeps
  the length. It then cuts the result at every single space character, puts \<^verbatim>\<open>U-\<close>
  before each piece that starts with \<^verbatim>\<open>U\<close> and \<^verbatim>\<open>u-\<close> before each piece that starts
  with \<^verbatim>\<open>u\<close>, so that the first letter is repeated, leaves the other pieces as they
  are, and joins the pieces with single spaces again: the pieces of the joined text are
  the stuttered pieces, one for one. The text returned is the joined text when it has at
  most 50 characters, and otherwise the text after the replacements only, with a
  warning. When the text to be returned is equal to the input, nothing is returned and
  \<^verbatim>\<open>ValueError("Quote was not modified")\<close> is raised.
\<close>

theorem uwuify_stages:
  "partially_transformed q = map spec_replace_letter q
   \<and> length (partially_transformed q) = length q
   \<and> stutter w = (if w \<noteq> [] \<and> hd w = of_char CHR ''U'' then lit ''U-'' @ w
                  else if w \<noteq> [] \<and> hd w = of_char CHR ''u'' then lit ''u-'' @ w
                  else w)
   \<and> split (fully_transformed p) (of_char CHR '' '') = map stutter (split p (of_char CHR '' ''))
   \<and> uwuify q s =
       (let p = map spec_replace_letter q;
            f = join (lit '' '') (map stutter (split p (of_char CHR '' '')))
        in if length f \<le> 50
           then (if f = q then (Inl (ValueError ''Quote was not modified''), s) else (Inr f, s))
           else (if p = q
                 then (Inl (ValueError ''Quote was not modified''),
                       warn ''Quote too long, only partially transformed'' s)
                 else (Inr p, warn ''Quote too long, only partially transformed'' s)))"
  using split_fully_transformed [of p] uwuify_eq [of q s]
  by (simp add: partially_transformed_map stutter_eq lit_def)

theorem uwuify_stages_witness:
  "uwuify (lit ''Ruler of us'') initial = (Inr (lit ''Wuwew of u-us''), initial)
   \<and> stutter (lit ''Under'') = lit ''U-Under''
   \<and> split (fully_transformed (lit ''up  u'')) 32 = [lit ''u-up'', [], lit ''u-u'']"
  using uwuify_stages [of "lit ''Ruler of us''" "lit ''Under''" "lit ''up  u''" initial]
  by (simp add: lit_def spec_replace_letter_def stutter_eq)

text \<open>
  The claim as written fails: \<^verbatim>\<open>upon\<close> becomes \<^verbatim>\<open>u-upon\<close>, not \<^verbatim>\<open>u-pon\<close>; a word
  after a tab (code point 9) is not a piece of its own and gets no stutter; a text that
  the two steps leave as it is gives an error and no result; and when the stuttered text
  is longer than 50 characters the words that start with \<^verbatim>\<open>u\<close> are returned without
  stutter.
\<close>

theorem uwuify_hyphen_counterexample:
  "uwuify (lit ''upon'') initial = (Inr (lit ''u-upon''), initial)
   \<and> lit ''u-upon'' \<noteq> lit ''u-pon''
   \<and> uwuify (lit ''all'' @ [9] @ lit ''up'') initial
       = (Inr (lit ''aww'' @ [9] @ lit ''up''), initial)
   \<and> uwuify (lit ''hewwo'') initial = (Inl (ValueError ''Quote was not modified''), initial)
   \<and> uwuify (lit ''really up up up up up up up up up up up up'') initial
       = (Inr (lit ''weawwy up up up up up up up up up up up up''),
          warn ''Quote too long, only partially transformed'' initial)"
  by (simp add: uwuify_eq lit_def spec_replace_letter_def stutter_eq)

subsection \<open>The offset of the uwu command\<close>

lemma uwu_command_prefix:
  "startswith (lit ''quote uwu '' @ dquote # t @ [x]) (lit ''quote uwu'')"
  "startswith (lit ''quote uwu'' @ dquote # t @ [x]) (lit ''quote uwu'')"
  by (simp_all add: startswith_def lit_def)

lemma uwu_command_raw:
  "drop 11 (butlast (lit ''quote uwu '' @ dquote # t @ [x])) = t"
  "drop 11 (butlast (lit ''quote uwu'' @ dquote # t @ [x])) = drop 1 t"
  by (simp_all add: lit_def butlast_append)

lemma run_command_uwu_space:
  "run_command (lit ''quote uwu '' @ dquote # t @ [x]) s
     = (case uwuify t s of
          (Inl e, s') \<Rightarrow> (Inl e, s')
        | (Inr r, s') \<Rightarrow> add_quote r UWU s')"
  by (simp add: run_command_uwu uwu_command_prefix uwu_command_raw)

lemma run_command_uwu_no_space:
  "run_command (lit ''quote uwu'' @ dquote # t @ [x]) s
     = (case uwuify (drop 1 t) s of
          (Inl e, s') \<Rightarrow> (Inl e, s')
        | (Inr r, s') \<Rightarrow> add_quote r UWU s')"
  by (simp add: run_command_uwu uwu_command_prefix uwu_command_raw)

text \<open>
  Claim C2, as amended. The offset 11 is the length of \<^verbatim>\<open>quote uwu\<close>, a space and the
  opening quotation mark. For every text \<open>t\<close>, the command made of that prefix, \<open>t\<close>
  and a closing quotation mark has exactly \<open>t\<close> as its raw quote; \<^verbatim>\<open>uwuify\<close> is
  applied to \<open>t\<close>, an error it raises is raised by the command, and a text it returns is
  passed to \<^verbatim>\<open>add_quote\<close> with mode \<^verbatim>\<open>UWU\<close>, which stores it when it has at most 50
  characters and is not stored yet. Without the space before the opening quotation mark
  the raw quote is \<open>t\<close> without its first character.
\<close>

theorem uwu_command_with_space:
  "slice (lit ''quote uwu '' @ [dquote] @ t @ [dquote]) 11 (- 1) = t
   \<and> run_command (lit ''quote uwu '' @ [dquote] @ t @ [dquote]) s
       = (case uwuify t s of
            (Inl e, s') \<Rightarrow> (Inl e, s')
          | (Inr r, s') \<Rightarrow> add_quote r UWU s')
   \<and> (uwuify t s = (Inr r, s') \<and> length r \<le> 50 \<and> r \<notin> set (get_quotes s) \<longrightarrow>
        run_command (lit ''quote uwu '' @ [dquote] @ t @ [dquote]) s
          = (Inr (), s'\<lparr>quotes := quotes s @ [\<lparr>quote = r, mode = UWU\<rparr>]\<rparr>))
   \<and> slice (lit ''quote uwu'' @ [dquote] @ t @ [dquote]) 11 (- 1) = drop 1 t
   \<and> run_command (lit ''quote uwu'' @ [dquote] @ t @ [dquote]) s
       = (case uwuify (drop 1 t) s of
            (Inl e, s') \<Rightarrow> (Inl e, s')
          | (Inr r, s') \<Rightarrow> add_quote r UWU s')"
proof -
  have q: "quotes s' = quotes s" "get_quotes s' = get_quotes s" if "uwuify t s = (Inr r, s')"
    using uwuify_quotes [of t s] that by (simp_all add: get_quotes_def)
  show ?thesis
    by (simp add: slice_11 run_command_uwu_space run_command_uwu_no_space uwu_command_raw
        add_quote_eq q)
qed

theorem uwu_command_with_space_witness:
  "run_command (lit ''quote uwu '' @ [dquote] @ lit ''really'' @ [dquote]) initial
     = (Inr (), initial\<lparr>quotes := [\<lparr>quote = lit ''weawwy'', mode = UWU\<rparr>]\<rparr>)"
proof -
  have u: "uwuify (lit ''really'') initial = (Inr (lit ''weawwy''), initial)"
    by (simp add: uwuify_eq lit_def spec_replace_letter_def stutter_eq)
  have "length (lit ''weawwy'') \<le> 50 \<and> lit ''weawwy'' \<notin> set (get_quotes initial)"
    by (simp add: lit_def get_quotes_def initial_def)
  with u uwu_command_with_space [of "lit ''really''" initial "lit ''weawwy''" initial]
  have "run_command (lit ''quote uwu '' @ [dquote] @ lit ''really'' @ [dquote]) initial
     = (Inr (), initial\<lparr>quotes := quotes initial @ [\<lparr>quote = lit ''weawwy'', mode = UWU\<rparr>]\<rparr>)"
    by blast
  then show ?thesis
    by (simp add: initial_def)
qed

text \<open>
  The command as the claim writes it, with no space before the opening quotation mark,
  does not extract \<^verbatim>\<open>really\<close>: the raw quote is \<^verbatim>\<open>eally\<close> and the store receives
  \<^verbatim>\<open>eawwy\<close>, while the transformation of \<^verbatim>\<open>really\<close> is \<^verbatim>\<open>weawwy\<close>.
\<close>

theorem uwu_command_offset_counterexample:
  "run_command (lit ''quote uwu'' @ [dquote] @ lit ''really'' @ [dquote]) initial
     = (Inr (), initial\<lparr>quotes := [\<lparr>quote = lit ''eawwy'', mode = UWU\<rparr>]\<rparr>)
   \<and> slice (lit ''quote uwu'' @ [dquote] @ lit ''really'' @ [dquote]) 11 (- 1) = lit ''eally''
   \<and> uwuify (lit ''really'') initial = (Inr (lit ''weawwy''), initial)"
proof -
  have d: "drop (Suc 0) (lit ''really'') = lit ''eally''"
    by (simp add: lit_def)
  have u: "uwuify (lit ''eally'') initial = (Inr (lit ''eawwy''), initial)"
    by (simp add: uwuify_eq lit_def spec_replace_letter_def stutter_eq)
  have a: "add_quote (lit ''eawwy'') UWU initial
     = (Inr (), initial\<lparr>quotes := [\<lparr>quote = lit ''eawwy'', mode = UWU\<rparr>]\<rparr>)"
    by (simp add: add_quote_eq lit_def get_quotes_def initial_def)
  have r: "run_command (lit ''quote uwu'' @ [dquote] @ lit ''really'' @ [dquote]) initial
     = (Inr (), initial\<lparr>quotes := [\<lparr>quote = lit ''eawwy'', mode = UWU\<rparr>]\<rparr>)"
    by (simp add: run_command_uwu_no_space) (simp only: d u a prod.case sum.case)
  have s: "slice (lit ''quote uwu'' @ [dquote] @ lit ''really'' @ [dquote]) 11 (- 1)
     = lit ''eally''"
    by (simp add: slice_11 uwu_command_raw) (simp only: d)
  have w: "uwuify (lit ''really'') initial = (Inr (lit ''weawwy''), initial)"
    by (simp add: uwuify_eq lit_def spec_replace_letter_def stutter_eq)
  from r s w show ?thesis by blast
qed

subsection \<open>The command on \<^verbatim>\<open>hello world\<close>\<close>

lemma uwuify_unchanged:
  assumes "\<And>x. x \<in> set q \<Longrightarrow> x \<notin> {76, 108, 82, 114}"
    and "\<And>w. w \<in> set (split q 32) \<Longrightarrow> \<not> startswith w [85] \<and> \<not> startswith w [117]"
  shows "fst (uwuify q s) = Inl (ValueError ''Quote was not modified'')"
proof -
  have p: "partially_transformed q = q"
    using assms(1) by (rule partially_transformed_id)
  have "stutter w = w" if "w \<in> set (split q 32)" for w
    using assms(2) [OF that] by (simp add: stutter_eq startswith_char)
  then have f: "fully_transformed q = q"
    by (rule fully_transformed_id)
  show ?thesis
    by (simp add: uwuify_def p f Let_def)
qed

lemma hello_world_commands:
  "run_command (lit ''quote uwu'' @ [dquote] @ lit ''hello world'' @ [dquote]) s
     = add_quote (lit ''ewwo wowwd'') UWU s"
  "run_command (lit ''quote uwu '' @ [dquote] @ lit ''hello world'' @ [dquote]) s
     = add_quote (lit ''hewwo wowwd'') UWU s"
proof -
  have d: "drop (Suc 0) (lit ''hello world'') = lit ''ello world''"
    by (simp add: lit_def)
  have u: "uwuify (lit ''ello world'') s = (Inr (lit ''ewwo wowwd''), s)"
    by (simp add: uwuify_eq lit_def spec_replace_letter_def stutter_eq)
  have u': "uwuify (lit ''hello world'') s = (Inr (lit ''hewwo wowwd''), s)"
    by (simp add: uwuify_eq lit_def spec_replace_letter_def stutter_eq)
  show "run_command (lit ''quote uwu'' @ [dquote] @ lit ''hello world'' @ [dquote]) s
     = add_quote (lit ''ewwo wowwd'') UWU s"
    by (simp add: run_command_uwu_no_space) (simp only: d u prod.case sum.case)
  show "run_command (lit ''quote uwu '' @ [dquote] @ lit ''hello world'' @ [dquote]) s
     = add_quote (lit ''hewwo wowwd'') UWU s"
    by (simp add: run_command_uwu_space) (simp only: u' prod.case sum.case)
qed

text \<open>
  Claim C5, as amended. The command \<^verbatim>\<open>quote uwu"hello world"\<close> does not fail with the
  not-modified error. Its raw quote, taken from offset 11, is \<^verbatim>\<open>ello world\<close>, which holds
  the letters \<^verbatim>\<open>l\<close> and \<^verbatim>\<open>r\<close>; the transformation returns \<^verbatim>\<open>ewwo wowwd\<close> and the
  command does what \<^verbatim>\<open>add_quote\<close> does with that text and mode \<^verbatim>\<open>UWU\<close>: on a store
  that does not hold the text it appends it and raises nothing. With a space before the
  opening quotation mark the text added is \<^verbatim>\<open>hewwo wowwd\<close>. An uwu command fails with
  \<^verbatim>\<open>ValueError("Quote was not modified")\<close> and stores nothing when its raw quote has none
  of the letters \<^verbatim>\<open>L\<close>, \<^verbatim>\<open>l\<close>, \<^verbatim>\<open>R\<close>, \<^verbatim>\<open>r\<close> and no piece between single spaces that
  starts with \<^verbatim>\<open>U\<close> or \<^verbatim>\<open>u\<close>.
\<close>

theorem hello_world_is_modified:
  "run_command (lit ''quote uwu'' @ [dquote] @ lit ''hello world'' @ [dquote]) s
     = add_quote (lit ''ewwo wowwd'') UWU s
   \<and> run_command (lit ''quote uwu '' @ [dquote] @ lit ''hello world'' @ [dquote]) s
     = add_quote (lit ''hewwo wowwd'') UWU s
   \<and> (lit ''ewwo wowwd'' \<notin> set (get_quotes s) \<longrightarrow>
        run_command (lit ''quote uwu'' @ [dquote] @ lit ''hello world'' @ [dquote]) s
          = (Inr (), s\<lparr>quotes := quotes s @ [\<lparr>quote = lit ''ewwo wowwd'', mode = UWU\<rparr>]\<rparr>))
   \<and> (startswith c (lit ''quote uwu'')
        \<and> (\<forall>x \<in> set (drop 11 (butlast c)).
              x \<notin> {of_char CHR ''L'', of_char CHR ''l'', of_char CHR ''R'', of_char CHR ''r''})
        \<and> (\<forall>w \<in> set (split (drop 11 (butlast c)) (of_char CHR '' '')).
              \<not> startswith w (lit ''U'') \<and> \<not> startswith w (lit ''u''))
        \<longrightarrow> fst (run_command c s) = Inl (ValueError ''Quote was not modified'')
            \<and> quotes (snd (run_command c s)) = quotes s)"
proof -
  note r = hello_world_commands(1) [of s]
  note r' = hello_world_commands(2) [of s]
  have l: "length (lit ''ewwo wowwd'') \<le> 50"
    by (simp add: lit_def)
  have a: "add_quote (lit ''ewwo wowwd'') UWU s
       = (Inr (), s\<lparr>quotes := quotes s @ [\<lparr>quote = lit ''ewwo wowwd'', mode = UWU\<rparr>]\<rparr>)"
    if "lit ''ewwo wowwd'' \<notin> set (get_quotes s)"
    using that l by (simp add: add_quote_eq)
  have n: "fst (run_command c s) = Inl (ValueError ''Quote was not modified'')
            \<and> quotes (snd (run_command c s)) = quotes s"
    if p: "startswith c (lit ''quote uwu'')"
      and x: "\<forall>x \<in> set (drop 11 (butlast c)). x \<notin> {76, 108, 82, 114}"
      and w: "\<forall>w \<in> set (split (drop 11 (butlast c)) 32).
              \<not> startswith w [85] \<and> \<not> startswith w [117]"
  proof -
    have "fst (uwuify (drop 11 (butlast c)) s) = Inl (ValueError ''Quote was not modified'')"
      using x w by (intro uwuify_unchanged) auto
    then obtain s' where u: "uwuify (drop 11 (butlast c)) s
        = (Inl (ValueError ''Quote was not modified''), s')"
      by (cases "uwuify (drop 11 (butlast c)) s") auto
    with uwuify_quotes [of "drop 11 (butlast c)" s] show ?thesis
      by (simp add: run_command_uwu [OF p])
  qed
  from r r' a n show ?thesis
    by (simp add: lit_def [of "''U''"] lit_def [of "''u''"])
qed

text \<open>
  On the empty store the command stores \<^verbatim>\<open>ewwo wowwd\<close>; the command
  \<^verbatim>\<open>quote uwu "hewwo wowwd"\<close> has nothing to replace and fails.
\<close>

theorem hello_world_is_modified_witness:
  "run_command (lit ''quote uwu'' @ [dquote] @ lit ''hello world'' @ [dquote]) initial
     = (Inr (), initial\<lparr>quotes := [\<lparr>quote = lit ''ewwo wowwd'', mode = UWU\<rparr>]\<rparr>)
   \<and> fst (run_command (lit ''quote uwu '' @ [dquote] @ lit ''hewwo wowwd'' @ [dquote]) initial)
       = Inl (ValueError ''Quote was not modified'')
   \<and> quotes (snd (run_command (lit ''quote uwu '' @ [dquote] @ lit ''hewwo wowwd'' @ [dquote])
        initial)) = []"
proof -
  let ?c = "lit ''quote uwu '' @ [dquote] @ lit ''hewwo wowwd'' @ [dquote]"
  have m: "lit ''ewwo wowwd'' \<notin> set (get_quotes initial)"
    by (simp add: get_quotes_def initial_def)
  have p: "startswith ?c (lit ''quote uwu'')"
    by (simp add: uwu_command_prefix)
  have raw: "drop 11 (butlast ?c) = lit ''hewwo wowwd''"
    by (simp add: uwu_command_raw)
  have x: "\<forall>x \<in> set (drop 11 (butlast ?c)).
      x \<notin> {of_char CHR ''L'', of_char CHR ''l'', of_char CHR ''R'', of_char CHR ''r''}"
    unfolding raw by (simp add: lit_def)
  have w: "\<forall>w \<in> set (split (drop 11 (butlast ?c)) (of_char CHR '' '')).
      \<not> startswith w (lit ''U'') \<and> \<not> startswith w (lit ''u'')"
    unfolding raw by (simp add: lit_def startswith_char)
  from m p x w hello_world_is_modified [of initial ?c]
  have "run_command (lit ''quote uwu'' @ [dquote] @ lit ''hello world'' @ [dquote]) initial
     = (Inr (), initial\<lparr>quotes := quotes initial @ [\<lparr>quote = lit ''ewwo wowwd'', mode = UWU\<rparr>]\<rparr>)
   \<and> fst (run_command ?c initial) = Inl (ValueError ''Quote was not modified'')
   \<and> quotes (snd (run_command ?c initial)) = quotes initial"
    by blast
  then show ?thesis
    by (simp add: initial_def)
qed

text \<open>
  The claim as written fails: on the empty store the command returns normally and a
  quote is stored, with or without the space before the opening quotation mark.
\<close>

theorem hello_world_counterexample:
  "run_command (lit ''quote uwu'' @ [dquote] @ lit ''hello world'' @ [dquote]) initial
     = (Inr (), initial\<lparr>quotes := [\<lparr>quote = lit ''ewwo wowwd'', mode = UWU\<rparr>]\<rparr>)
   \<and> run_command (lit ''quote uwu '' @ [dquote] @ lit ''hello world'' @ [dquote]) initial
     = (Inr (), initial\<lparr>quotes := [\<lparr>quote = lit ''hewwo wowwd'', mode = UWU\<rparr>]\<rparr>)"
  by (simp only: hello_world_commands)
     (simp add: add_quote_eq get_quotes_def initial_def lit_def)

subsection \<open>Texts too long for the stutter\<close>

lemma length_stutter: "length w \<le> length (stutter w)"
  by (simp add: stutter_eq)

lemma length_join_stutter: "length (join sep ws) \<le> length (join sep (map stutter ws))"
proof (induction sep ws rule: join.induct)
  case (3 sep w v ws)
  with length_stutter [of w] show ?case by simp
qed (simp_all add: length_stutter)

lemma length_fully_transformed: "length p \<le> length (fully_transformed p)"
  using length_join_stutter [of "[32]" "split p 32"]
  by (simp add: fully_transformed_eq join_split)

lemma uwuify_fallback:
  assumes "50 < length (fully_transformed (partially_transformed q))"
  shows "uwuify q s =
           (if partially_transformed q = q
            then (Inl (ValueError ''Quote was not modified''),
                  warn ''Quote too long, only partially transformed'' s)
            else (Inr (partially_transformed q),
                  warn ''Quote too long, only partially transformed'' s))"
  using assms by (simp add: uwuify_def MAX_QUOTE_LENGTH_def)

lemma replicate_a_unchanged:
  "partially_transformed (replicate n 97) = replicate n 97"
  "fully_transformed (replicate n 97) = replicate n 97"
proof -
  show "partially_transformed (replicate n 97) = replicate n 97"
    by (rule partially_transformed_id) simp
  have "split (replicate n 97) 32 = [replicate n 97]"
    by (rule split_no_sep) simp
  moreover have "stutter (replicate n 97) = replicate n 97"
    by (cases n) (simp_all add: stutter_eq)
  ultimately show "fully_transformed (replicate n 97) = replicate n 97"
    by (simp add: fully_transformed_eq)
qed

text \<open>
  Claim C10, as amended. When the fully transformed text of an uwu command is longer
  than 50 characters, \<^verbatim>\<open>uwuify\<close> falls back to the partially transformed text, which
  is as long as the raw quote, and gives a warning that does not stop it. If the
  partially transformed text is equal to the raw quote, \<^verbatim>\<open>uwuify\<close> itself then raises
  \<^verbatim>\<open>ValueError("Quote was not modified")\<close>. If it differs and is still longer than 50
  characters, \<^verbatim>\<open>add_quote\<close> raises \<^verbatim>\<open>ValueError("Quote is too long")\<close>. If it differs
  and has at most 50 characters, it is passed to \<^verbatim>\<open>add_quote\<close> with mode \<^verbatim>\<open>UWU\<close>.
  Whenever the partially transformed text is longer than 50 characters nothing is
  stored.
\<close>

theorem long_uwu_command:
  assumes "startswith c (lit ''quote uwu'')"
    and "50 < length (fully_transformed (partially_transformed (drop 11 (butlast c))))"
  shows "length (partially_transformed (drop 11 (butlast c))) = length (drop 11 (butlast c))
    \<and> (partially_transformed (drop 11 (butlast c)) = drop 11 (butlast c) \<longrightarrow>
         run_command c s = (Inl (ValueError ''Quote was not modified''),
                            warn ''Quote too long, only partially transformed'' s))
    \<and> (partially_transformed (drop 11 (butlast c)) \<noteq> drop 11 (butlast c)
        \<and> 50 < length (partially_transformed (drop 11 (butlast c))) \<longrightarrow>
         run_command c s = (Inl (ValueError ''Quote is too long''),
                            warn ''Quote too long, only partially transformed'' s))
    \<and> (partially_transformed (drop 11 (butlast c)) \<noteq> drop 11 (butlast c)
        \<and> length (partially_transformed (drop 11 (butlast c))) \<le> 50 \<longrightarrow>
         run_command c s = add_quote (partially_transformed (drop 11 (butlast c))) UWU
                             (warn ''Quote too long, only partially transformed'' s))
    \<and> (50 < length (partially_transformed (drop 11 (butlast c))) \<longrightarrow>
         quotes (snd (run_command c s)) = quotes s)"
  by (simp add: run_command_uwu [OF assms(1)] uwuify_fallback [OF assms(2)] add_quote_eq)

text \<open>
  A raw quote of 51 letters \<^verbatim>\<open>r\<close> becomes 51 letters \<^verbatim>\<open>w\<close> and is too long; a raw
  quote of 51 letters \<^verbatim>\<open>a\<close> is left as it is and is reported as not modified.
\<close>

theorem long_uwu_command_witness:
  "run_command (lit ''quote uwu '' @ [dquote] @ replicate 51 114 @ [dquote]) initial
     = (Inl (ValueError ''Quote is too long''),
        warn ''Quote too long, only partially transformed'' initial)
   \<and> run_command (lit ''quote uwu '' @ [dquote] @ replicate 51 97 @ [dquote]) initial
     = (Inl (ValueError ''Quote was not modified''),
        warn ''Quote too long, only partially transformed'' initial)"
proof -
  let ?r = "lit ''quote uwu '' @ [dquote] @ replicate 51 114 @ [dquote]"
  let ?a = "lit ''quote uwu '' @ [dquote] @ replicate 51 97 @ [dquote]"
  have pr: "startswith ?r (lit ''quote uwu'')" and pa: "startswith ?a (lit ''quote uwu'')"
    by (simp_all add: uwu_command_prefix)
  have rr: "drop 11 (butlast ?r) = replicate 51 114" and ra: "drop 11 (butlast ?a) = replicate 51 97"
    by (simp_all add: uwu_command_raw)
  have w: "partially_transformed (replicate 51 114) = replicate 51 119"
    by (simp add: partially_transformed_map spec_replace_letter_def)
  have ne: "replicate 51 (119::nat) \<noteq> replicate 51 114"
    by (simp add: replicate_eq_replicate)
  have lr: "50 < length (fully_transformed (partially_transformed (drop 11 (butlast ?r))))"
    unfolding rr w using length_fully_transformed [of "replicate 51 119"] by simp
  have la: "50 < length (fully_transformed (partially_transformed (drop 11 (butlast ?a))))"
    unfolding ra by (simp add: replicate_a_unchanged)
  from long_uwu_command [OF pr lr, of initial] ne
  have 1: "run_command ?r initial = (Inl (ValueError ''Quote is too long''),
        warn ''Quote too long, only partially transformed'' initial)"
    unfolding rr w by simp
  from long_uwu_command [OF pa la, of initial]
  have 2: "run_command ?a initial = (Inl (ValueError ''Quote was not modified''),
        warn ''Quote too long, only partially transformed'' initial)"
    unfolding ra by (simp add: replicate_a_unchanged)
  from 1 2 show ?thesis by blast
qed

text \<open>
  The claim as written fails for a raw quote of 51 letters \<^verbatim>\<open>a\<close>: the fully and the
  partially transformed texts are both longer than 50 characters, yet the error is the
  not-modified one raised by \<^verbatim>\<open>uwuify\<close>, and \<^verbatim>\<open>add_quote\<close> is never reached.
\<close>

theorem long_uwu_command_counterexample:
  "50 < length (fully_transformed (partially_transformed (replicate 51 97)))
   \<and> 50 < length (partially_transformed (replicate 51 97))
   \<and> run_command (lit ''quote uwu '' @ [dquote] @ replicate 51 97 @ [dquote]) initial
     = (Inl (ValueError ''Quote was not modified''),
        warn ''Quote too long, only partially transformed'' initial)
   \<and> ValueError ''Quote was not modified'' \<noteq> ValueError ''Quote is too long''"
proof -
  have l: "50 < length (fully_transformed (partially_transformed (replicate 51 97)))"
    by (simp add: replicate_a_unchanged)
  have "uwuify (replicate 51 97) initial
      = (Inl (ValueError ''Quote was not modified''),
         warn ''Quote too long, only partially transformed'' initial)"
    by (simp add: uwuify_fallback [OF l] replicate_a_unchanged)
  then have "run_command (lit ''quote uwu '' @ [dquote] @ replicate 51 97 @ [dquote]) initial
     = (Inl (ValueError ''Quote was not modified''),
        warn ''Quote too long, only partially transformed'' initial)"
    by (simp add: run_command_uwu_space)
  with l show ?thesis by simp
qed

end
